theory Spec2Isabelle
  imports Main "HOL-Library.Word" "HOL-Library.Sublist"
begin

section \<open>The interfaces the component consumes\<close>

text \<open>
  \<^verbatim>\<open>WifiClient.cpp\<close> sits on the ESP-IDF driver, its event loop and the FreeRTOS queue
  primitive. Their results are inputs of the component: the record \<open>env\<close> gives, for
  the call made when \<open>n\<close> actions have been performed so far, the value that call returns.
  Every call is appended to the \<open>trace\<close> of the system, in the order in which the code
  performs it, together with every write of the \<open>connected\<close> attribute.
\<close>

type_synonym esp_err_t = "32 word"
type_synonym event_id_t = "32 word"
type_synonym BaseType_t = int
type_synonym QueueHandle_t = nat
type_synonym SemaphoreHandle_t = nat

text \<open>A \<open>QueueHandle_t&\<close> parameter is the address of a handle variable of the caller.\<close>

type_synonym handle_ref = nat

definition ESP_OK :: esp_err_t where "ESP_OK = 0"
definition ESP_FAIL :: esp_err_t where "ESP_FAIL = - 1"
definition pdTRUE :: BaseType_t where "pdTRUE = 1"
definition errQUEUE_FULL :: BaseType_t where "errQUEUE_FULL = 0"

datatype esp_event_base_t = WIFI_EVENT | IP_EVENT | OTHER_EVENT_BASE string

text \<open>The values of ESP-IDF's \<open>wifi_event_t\<close> and \<open>ip_event_t\<close> enumerations.\<close>

definition WIFI_EVENT_WIFI_READY :: event_id_t where "WIFI_EVENT_WIFI_READY = 0"
definition WIFI_EVENT_STA_START :: event_id_t where "WIFI_EVENT_STA_START = 2"
definition WIFI_EVENT_STA_CONNECTED :: event_id_t where "WIFI_EVENT_STA_CONNECTED = 4"
definition WIFI_EVENT_STA_DISCONNECTED :: event_id_t where "WIFI_EVENT_STA_DISCONNECTED = 5"
definition IP_EVENT_STA_GOT_IP :: event_id_t where "IP_EVENT_STA_GOT_IP = 0"
definition ESP_EVENT_ANY_ID :: event_id_t where "ESP_EVENT_ANY_ID = - 1"

datatype wifi_auth_mode_t = WIFI_AUTH_OPEN | WIFI_AUTH_WPA2_PSK

text \<open>
  The two fixed-size fields of \<open>wifi_sta_config_t\<close> that \<open>init\<close> writes:
  \<open>uint8_t ssid[32]\<close> and \<open>uint8_t password[64]\<close>.
\<close>

record wifi_config_t =
  sta_ssid :: "8 word list"
  sta_password :: "8 word list"
  sta_threshold_authmode :: wifi_auth_mode_t

definition sta_ssid_size :: nat where "sta_ssid_size = 32"
definition sta_password_size :: nat where "sta_password_size = 64"

datatype esp_api =
    esp_netif_init
  | esp_event_loop_create_default
  | esp_wifi_init
  | esp_wifi_set_mode_STA
  | esp_wifi_set_config_STA wifi_config_t
  | esp_event_handler_register esp_event_base_t event_id_t
  | esp_event_handler_unregister esp_event_base_t event_id_t
  | esp_wifi_start
  | esp_wifi_stop
  | esp_wifi_connect

text \<open>\<open>WifiClient::Event\<close> and \<open>WifiClient::Config\<close>.\<close>

datatype Event = CONNECTED | DISCONNECTED

record Config =
  ssid :: string
  password :: string

datatype action =
    Esp esp_api esp_err_t
  | Esp_log_level_set string
  | Esp_netif_create_default_wifi_sta
  | XSemaphoreCreateMutex SemaphoreHandle_t
  | XQueueCreate nat QueueHandle_t
  | XQueueSend QueueHandle_t Event nat BaseType_t
  | SetConnected bool
  | LogE string

record env =
  esp_result :: "nat \<Rightarrow> esp_api \<Rightarrow> esp_err_t"
  esp_err_to_name :: "esp_err_t \<Rightarrow> string"
  xQueueCreate_result :: "nat \<Rightarrow> QueueHandle_t"
  xSemaphoreCreateMutex_result :: "nat \<Rightarrow> SemaphoreHandle_t"

text \<open>A FreeRTOS queue of \<open>Event\<close> items: its length and the items waiting in it.\<close>

record queue =
  capacity :: nat
  items :: "Event list"

section \<open>The singleton and the memory around it\<close>

text \<open>
  The attributes of \<open>class WifiClient\<close>. \<open>eventReceivers\<close> is a
  \<open>std::vector<QueueHandle_t*>\<close>: it stores the addresses of the callers' handle
  variables, not the handles.
\<close>

record WifiClient =
  connectedMutex :: SemaphoreHandle_t
  connected :: bool
  initalized :: bool
  eventReceivers :: "handle_ref list"

text \<open>
  The system is the singleton together with the live queues, the callers' handle
  variables and the trace of what has been done.
\<close>

record system = WifiClient +
  queues :: "QueueHandle_t \<rightharpoonup> queue"
  handle_vars :: "handle_ref \<Rightarrow> QueueHandle_t"
  trace :: "action list"

text \<open>
  \<open>WifiClient WifiClient::Singleton\<close> has static storage and a constructor with an empty
  body: its attributes start zeroed.
\<close>

definition Singleton :: system where
  "Singleton = \<lparr>connectedMutex = 0, connected = False, initalized = False,
     eventReceivers = [], queues = Map.empty, handle_vars = (\<lambda>_. 0), trace = []\<rparr>"

datatype exn = runtime_error string | invalid_argument string

text \<open>
  How a method ends: it returns, it throws, or it writes past the end of an array
  (undefined behaviour, where the model stops).
\<close>

datatype outcome = Returned | Threw exn | Wrote_past_end

definition emit :: "action \<Rightarrow> system \<Rightarrow> system" where
  "emit a s = s\<lparr>trace := trace s @ [a]\<rparr>"

definition esp_call :: "env \<Rightarrow> esp_api \<Rightarrow> system \<Rightarrow> esp_err_t \<times> system" where
  "esp_call e c s = (let r = esp_result e (length (trace s)) c in (r, emit (Esp c r) s))"

definition ESP_LOGE :: "string \<Rightarrow> system \<Rightarrow> system" where
  "ESP_LOGE msg s = emit (LogE msg) s"

text \<open>
  \<open>xQueueCreate(uxQueueLength, sizeof(WifiClient::Event))\<close>: the null handle when the
  queue cannot be allocated, otherwise the handle of a new, empty queue.
\<close>

definition xQueueCreate :: "env \<Rightarrow> nat \<Rightarrow> system \<Rightarrow> QueueHandle_t \<times> system" where
  "xQueueCreate e uxQueueLength s =
     (let h = xQueueCreate_result e (length (trace s)) in
      (h, emit (XQueueCreate uxQueueLength h)
            (if h = 0 then s
             else s\<lparr>queues := (queues s)(h \<mapsto> \<lparr>capacity = uxQueueLength, items = []\<rparr>)\<rparr>)))"

text \<open>
  \<open>xQueueSend(xQueue, &item, xTicksToWait)\<close>. A handle that is not a live queue fails
  FreeRTOS's \<open>configASSERT\<close>: the result is \<open>None\<close>. A queue with room takes the item at
  its back. A full queue is left as it is and the call reports \<open>errQUEUE_FULL\<close>, after
  waiting at most \<open>xTicksToWait\<close> ticks, which the action records.
\<close>

definition xQueueSend ::
  "QueueHandle_t \<Rightarrow> Event \<Rightarrow> nat \<Rightarrow> system \<Rightarrow> (BaseType_t \<times> system) option" where
  "xQueueSend xQueue item xTicksToWait s =
     (case queues s xQueue of
        None \<Rightarrow> None
      | Some q \<Rightarrow>
          if length (items q) < capacity q
          then Some (pdTRUE,
                 emit (XQueueSend xQueue item xTicksToWait pdTRUE)
                   (s\<lparr>queues := (queues s)(xQueue \<mapsto> q\<lparr>items := items q @ [item]\<rparr>)\<rparr>))
          else Some (errQUEUE_FULL,
                 emit (XQueueSend xQueue item xTicksToWait errQUEUE_FULL) s))"

section \<open>WifiClient.cpp\<close>

text \<open>
  \<open>isConnected\<close> and \<open>setConnected\<close> take \<open>connectedMutex\<close> with \<open>portMAX_DELAY\<close>, read or
  write \<open>connected\<close> and give the mutex back. The model runs one call at a time, so the
  mutex is free at every take and the bracket leaves only the read or the write.
\<close>

definition isConnected :: "system \<Rightarrow> bool" where
  "isConnected s = connected s"

definition setConnected :: "bool \<Rightarrow> system \<Rightarrow> system" where
  "setConnected c s = emit (SetConnected c) (s\<lparr>connected := c\<rparr>)"

text \<open>\<open>fireEvent\<close>: the range-for over \<open>eventReceivers\<close>, each pointer read when it is used.\<close>

fun fireEvent_loop :: "Event \<Rightarrow> handle_ref list \<Rightarrow> system \<Rightarrow> system option" where
  "fireEvent_loop event [] s = Some s"
| "fireEvent_loop event (queue # rest) s =
     (case xQueueSend (handle_vars s queue) event 0 s of
        None \<Rightarrow> None
      | Some (result, s1) \<Rightarrow>
          fireEvent_loop event rest
            (if result \<noteq> pdTRUE
             then ESP_LOGE ''Could not fire event, receive queue is full.'' s1
             else s1))"

definition fireEvent :: "Event \<Rightarrow> system \<Rightarrow> system option" where
  "fireEvent event s = fireEvent_loop event (eventReceivers s) s"

text \<open>
  \<open>WifiClient_event_handler\<close>. \<open>LOG_LOCAL_LEVEL\<close> is \<open>ESP_LOG_ERROR\<close>, so the \<open>ESP_LOGD\<close>
  lines compile to nothing; \<open>arg\<close> and \<open>event_data\<close> are read by those lines only.
\<close>

definition log_connect_error :: "env \<Rightarrow> esp_err_t \<times> system \<Rightarrow> system" where
  "log_connect_error e rs =
     (if fst rs \<noteq> ESP_OK
      then ESP_LOGE (''esp_wifi_connect had an error: '' @ esp_err_to_name e (fst rs)) (snd rs)
      else snd rs)"

definition WifiClient_event_handler ::
  "env \<Rightarrow> esp_event_base_t \<Rightarrow> event_id_t \<Rightarrow> system \<Rightarrow> system option" where
  "WifiClient_event_handler e event_base event_id s =
     (if event_base = WIFI_EVENT \<and> event_id = WIFI_EVENT_STA_START then
        Some (log_connect_error e (esp_call e esp_wifi_connect s))
      else if event_base = WIFI_EVENT \<and> event_id = WIFI_EVENT_STA_DISCONNECTED then
        (case (if isConnected s then fireEvent DISCONNECTED s else Some s) of
           None \<Rightarrow> None
         | Some s1 \<Rightarrow>
             Some (log_connect_error e (esp_call e esp_wifi_connect (setConnected False s1))))
      else if event_base = WIFI_EVENT \<and> event_id = WIFI_EVENT_WIFI_READY then Some s
      else if event_base = WIFI_EVENT \<and> event_id = WIFI_EVENT_STA_CONNECTED then Some s
      else if event_base = IP_EVENT \<and> event_id = IP_EVENT_STA_GOT_IP then
        (case (if \<not> isConnected s then fireEvent CONNECTED s else Some s) of
           None \<Rightarrow> None
         | Some s1 \<Rightarrow> Some (setConnected True s1))
      else Some s)"

text \<open>The event loop calls the handler once per event, one event after the other.\<close>

fun run_events ::
  "env \<Rightarrow> (esp_event_base_t \<times> event_id_t) list \<Rightarrow> system \<Rightarrow> system option" where
  "run_events e [] s = Some s"
| "run_events e (ev # evs) s =
     (case WifiClient_event_handler e (fst ev) (snd ev) s of
        None \<Rightarrow> None
      | Some s' \<Rightarrow> run_events e evs s')"

text \<open>\<open>WifiClient::connect\<close>.\<close>

definition connect :: "env \<Rightarrow> system \<Rightarrow> outcome \<times> system" where
  "connect e s =
     (if \<not> initalized s then
        (Threw (runtime_error (''WifiClient::connect: '' @ ''client not initialized'')), s)
      else if isConnected s then (Returned, s)
      else
        let (result, s1) =
              esp_call e (esp_event_handler_register WIFI_EVENT ESP_EVENT_ANY_ID) s in
        if result \<noteq> ESP_OK then
          (Threw (runtime_error (''WifiClient::connect: '' @
             ''can't register handler, error: '' @ esp_err_to_name e result)), s1)
        else
        let (result, s2) =
              esp_call e (esp_event_handler_register IP_EVENT IP_EVENT_STA_GOT_IP) s1 in
        if result \<noteq> ESP_OK then
          (Threw (runtime_error (''WifiClient::connect: '' @
             ''can't register handler, error: '' @ esp_err_to_name e result)), s2)
        else
        let (result, s3) = esp_call e esp_wifi_start s2 in
        if result \<noteq> ESP_OK then
          (Threw (runtime_error (''WifiClient::connect: '' @
             ''esp_wifi_start returned error: '' @ esp_err_to_name e result)), s3)
        else (Returned, s3))"

text \<open>\<open>WifiClient::disconnect\<close>.\<close>

definition disconnect :: "env \<Rightarrow> system \<Rightarrow> outcome \<times> system" where
  "disconnect e s =
     (if \<not> initalized s then
        (Threw (runtime_error (''WifiClient::disconnect: '' @ ''client not initialized'')), s)
      else if \<not> isConnected s then (Returned, s)
      else
        let (result, s1) = esp_call e esp_wifi_stop s in
        if result \<noteq> ESP_OK then
          (Threw (runtime_error (''WifiClient::disconnect: '' @
             ''esp_wifi_stop returned error: '' @ esp_err_to_name e result)), s1)
        else
        let (result, s2) =
              esp_call e (esp_event_handler_unregister WIFI_EVENT ESP_EVENT_ANY_ID) s1 in
        if result \<noteq> ESP_OK then
          (Threw (runtime_error (''WifiClient::disconnect: '' @
             ''can't unregister handler, error: '' @ esp_err_to_name e result)), s2)
        else
        let (result, s3) =
              esp_call e (esp_event_handler_unregister IP_EVENT IP_EVENT_STA_GOT_IP) s2 in
        if result \<noteq> ESP_OK then
          (Threw (runtime_error (''WifiClient::disconnect: '' @
             ''can't unregister handler, error: '' @ esp_err_to_name e result)), s3)
        else (Returned, setConnected False s3))"

text \<open>
  \<open>WifiClient::registerEventReceiver\<close>. \<open>queueHandle\<close> is the reference parameter: the
  handle is written to the caller's variable before it is tested, and the address of
  that variable is what \<open>push_back\<close> stores.
\<close>

definition registerEventReceiver ::
  "env \<Rightarrow> handle_ref \<Rightarrow> 8 word \<Rightarrow> system \<Rightarrow> outcome \<times> system" where
  "registerEventReceiver e queueHandle queueSize s =
     (if queueSize = 0 then
        (Threw (invalid_argument
           ''WifiClient::registerEventReceiver: Queue size must be greater 0''), s)
      else
        let (h, s1) = xQueueCreate e (unat queueSize) s;
            s2 = s1\<lparr>handle_vars := (handle_vars s1)(queueHandle := h)\<rparr>
        in if handle_vars s2 queueHandle = 0 then
             (Threw (runtime_error
                ''WifiClient::registerEventReceiver: Queue could not be created''), s2)
           else (Returned, s2\<lparr>eventReceivers := eventReceivers s2 @ [queueHandle]\<rparr>))"

text \<open>
  \<open>memcpy(dst, src, n)\<close> into a field of a struct: \<open>dst\<close> is the content of the field,
  whose length is the size of the array. Copying more bytes than the field holds writes
  past its end: \<open>None\<close>.
\<close>

definition memcpy_field :: "8 word list \<Rightarrow> 8 word list \<Rightarrow> nat \<Rightarrow> 8 word list option" where
  "memcpy_field dst src n = (if n \<le> length dst then Some (take n src @ drop n dst) else None)"

definition c_str :: "string \<Rightarrow> 8 word list" where
  "c_str str = map of_char str @ [0]"

text \<open>
  \<open>WifiClient::init\<close>. \<open>memset\<close> zeroes \<open>wifiConfig\<close> (\<open>WIFI_AUTH_OPEN\<close> is the zero of
  its enumeration); the two \<open>memcpy\<close> calls copy \<open>length()\<close> bytes each, with no test of
  the lengths before them.
\<close>

definition init :: "env \<Rightarrow> Config \<Rightarrow> system \<Rightarrow> outcome \<times> system" where
  "init e config s =
     (let s1 = emit (Esp_log_level_set ''WifiClient'') s;
          s2 = emit (Esp_log_level_set ''wifi'') s1;
          s3 = emit (Esp_log_level_set ''wifi_init'') s2;
          s4 = emit (Esp_log_level_set ''phy_init'') s3;
          s5 = emit (Esp_log_level_set ''esp_netif_handlers'') s4;
          m = xSemaphoreCreateMutex_result e (length (trace s5));
          s6 = emit (XSemaphoreCreateMutex m) (s5\<lparr>connectedMutex := m\<rparr>);
          (result, s7) = esp_call e esp_netif_init s6 in
      if result \<noteq> ESP_OK then
        (Threw (runtime_error (''WifiClient::init: '' @
           ''netif init failed with error: '' @ esp_err_to_name e result)), s7)
      else
      let (result, s8) = esp_call e esp_event_loop_create_default s7 in
      if result \<noteq> ESP_OK then
        (Threw (runtime_error (''WifiClient::init: '' @
           ''event loop create failed with error: '' @ esp_err_to_name e result)), s8)
      else
      let s9 = emit Esp_netif_create_default_wifi_sta s8;
          (result, s10) = esp_call e esp_wifi_init s9 in
      if result \<noteq> ESP_OK then
        (Threw (runtime_error (''WifiClient::init: '' @
           ''esp wifi init failed with error: '' @ esp_err_to_name e result)), s10)
      else
      let zeroed = \<lparr>sta_ssid = replicate sta_ssid_size 0,
                     sta_password = replicate sta_password_size 0,
                     sta_threshold_authmode = WIFI_AUTH_OPEN\<rparr>;
          wifiConfig = zeroed\<lparr>sta_threshold_authmode := WIFI_AUTH_WPA2_PSK\<rparr> in
      case memcpy_field (sta_ssid wifiConfig) (c_str (ssid config)) (length (ssid config)) of
        None \<Rightarrow> (Wrote_past_end, s10)
      | Some ssid_bytes \<Rightarrow>
     (case memcpy_field (sta_password wifiConfig) (c_str (password config))
             (length (password config)) of
        None \<Rightarrow> (Wrote_past_end, s10)
      | Some password_bytes \<Rightarrow>
      let wifiConfig = wifiConfig\<lparr>sta_ssid := ssid_bytes, sta_password := password_bytes\<rparr>;
          (result, s11) = esp_call e esp_wifi_set_mode_STA s10 in
      if result \<noteq> ESP_OK then
        (Threw (runtime_error (''WifiClient::init: '' @
           ''esp wifi set mode failed with error: '' @ esp_err_to_name e result)), s11)
      else
      let (result, s12) = esp_call e (esp_wifi_set_config_STA wifiConfig) s11 in
      if result \<noteq> ESP_OK then
        (Threw (runtime_error (''WifiClient::init: '' @
           ''esp wifi set conif failed with error: '' @ esp_err_to_name e result)), s12)
      else (Returned, s12\<lparr>initalized := True\<rparr>)))"

section \<open>Reading the trace\<close>

fun esp_call_of :: "action \<Rightarrow> esp_api list" where
  "esp_call_of (Esp c r) = [c]"
| "esp_call_of _ = []"

text \<open>The driver and event-loop calls of a trace, in the order in which they were made.\<close>

definition esp_calls :: "action list \<Rightarrow> esp_api list" where
  "esp_calls acts = concat (map esp_call_of acts)"

text \<open>What an operation that took \<open>s\<close> to \<open>s'\<close> appended to the trace.\<close>

definition new_actions :: "system \<Rightarrow> system \<Rightarrow> action list" where
  "new_actions s s' = drop (length (trace s)) (trace s')"

fun send_of :: "action \<Rightarrow> (QueueHandle_t \<times> Event \<times> nat \<times> BaseType_t) list" where
  "send_of (XQueueSend h ev t r) = [(h, ev, t, r)]"
| "send_of _ = []"

text \<open>
  The queue sends of a trace, in order: the handle, the item, the ticks the call was
  allowed to wait, and what it returned.
\<close>

definition sends :: "action list \<Rightarrow> (QueueHandle_t \<times> Event \<times> nat \<times> BaseType_t) list" where
  "sends acts = concat (map send_of acts)"

fun flag_write_of :: "action \<Rightarrow> bool list" where
  "flag_write_of (SetConnected c) = [c]"
| "flag_write_of _ = []"

text \<open>The values written to \<open>connected\<close>, in order.\<close>

definition flag_writes :: "action list \<Rightarrow> bool list" where
  "flag_writes acts = concat (map flag_write_of acts)"

text \<open>
  Every registered address holds the handle of a live queue: what the registry looks
  like while each caller keeps the queue it registered.
\<close>

definition receivers_live :: "system \<Rightarrow> bool" where
  "receivers_live s =
     list_all (\<lambda>r. queues s (handle_vars s r) \<noteq> None) (eventReceivers s)"

text \<open>A live queue at capacity.\<close>

definition is_full :: "system \<Rightarrow> QueueHandle_t \<Rightarrow> bool" where
  "is_full s h =
     (case queues s h of None \<Rightarrow> False | Some q \<Rightarrow> capacity q \<le> length (items q))"

text \<open>
  One turn of the loop of \<open>fireEvent\<close> on a live queue \<open>q\<close> with handle \<open>h\<close>: the send
  and, when it fails, the log line.
\<close>

definition send_step :: "Event \<Rightarrow> QueueHandle_t \<Rightarrow> queue \<Rightarrow> system \<Rightarrow> system" where
  "send_step ev h q s =
     (if length (items q) < capacity q
      then s\<lparr>queues := (queues s)(h \<mapsto> q\<lparr>items := items q @ [ev]\<rparr>),
             trace := trace s @ [XQueueSend h ev 0 pdTRUE]\<rparr>
      else s\<lparr>trace := trace s @ [XQueueSend h ev 0 errQUEUE_FULL,
             LogE ''Could not fire event, receive queue is full.'']\<rparr>)"

abbreviation got_ip :: "esp_event_base_t \<times> event_id_t" where
  "got_ip \<equiv> (IP_EVENT, IP_EVENT_STA_GOT_IP)"

abbreviation sta_disconnected :: "esp_event_base_t \<times> event_id_t" where
  "sta_disconnected \<equiv> (WIFI_EVENT, WIFI_EVENT_STA_DISCONNECTED)"

text \<open>
  The connected flag after a list of events, read off the events alone: a "station
  disconnected" clears it, an "address acquired" sets it, any other event keeps it.
\<close>

fun flag_after :: "bool \<Rightarrow> (esp_event_base_t \<times> event_id_t) list \<Rightarrow> bool" where
  "flag_after c [] = c"
| "flag_after c (ev # evs) =
     flag_after (if ev = sta_disconnected then False else if ev = got_ip then True else c) evs"

section \<open>Concrete environments and systems\<close>

text \<open>An environment in which every driver call succeeds.\<close>

definition env_ok :: env where
  "env_ok = \<lparr>esp_result = (\<lambda>n c. ESP_OK), esp_err_to_name = (\<lambda>r. ''ESP_OK''),
     xQueueCreate_result = (\<lambda>n. Suc n), xSemaphoreCreateMutex_result = (\<lambda>n. 1)\<rparr>"

text \<open>
  An environment in which the first three calls succeed, every later driver call
  returns \<open>ESP_FAIL\<close>, and no queue can be allocated.
\<close>

definition env_later_calls_fail :: env where
  "env_later_calls_fail = \<lparr>esp_result = (\<lambda>n c. if n < 3 then ESP_OK else ESP_FAIL),
     esp_err_to_name = (\<lambda>r. ''ESP_FAIL''),
     xQueueCreate_result = (\<lambda>n. 0), xSemaphoreCreateMutex_result = (\<lambda>n. 1)\<rparr>"

definition ready_system :: system where
  "ready_system = Singleton\<lparr>initalized := True\<rparr>"

definition connected_system :: system where
  "connected_system = Singleton\<lparr>connected := True, initalized := True\<rparr>"

text \<open>A caller whose handle variable at address 7 holds the handle 5.\<close>

definition caller_system :: system where
  "caller_system = Singleton\<lparr>handle_vars := (\<lambda>_. 0)(7 := 5)\<rparr>"

definition long_ssid_config :: Config where
  "long_ssid_config = \<lparr>ssid = replicate 33 (CHR ''a''), password = ''secret123''\<rparr>"

text \<open>
  Two subscribers: the variable at address 7 holds the handle of a full queue, the
  variable at address 8 the handle of an empty one.
\<close>

definition two_queue_system :: system where
  "two_queue_system = Singleton\<lparr>initalized := True, eventReceivers := [7, 8],
     queues := [5 \<mapsto> \<lparr>capacity = 1, items = [CONNECTED]\<rparr>,
                6 \<mapsto> \<lparr>capacity = 1, items = []\<rparr>],
     handle_vars := (\<lambda>_. 0)(7 := 5, 8 := 6)\<rparr>"

definition connected_two_queue_system :: system where
  "connected_two_queue_system = two_queue_system\<lparr>connected := True\<rparr>"

definition lab_events :: "(esp_event_base_t \<times> event_id_t) list" where
  "lab_events =
     [(WIFI_EVENT, WIFI_EVENT_STA_START), (WIFI_EVENT, WIFI_EVENT_STA_CONNECTED),
      (IP_EVENT, IP_EVENT_STA_GOT_IP), (WIFI_EVENT, WIFI_EVENT_STA_DISCONNECTED),
      (WIFI_EVENT, WIFI_EVENT_STA_CONNECTED), (IP_EVENT, IP_EVENT_STA_GOT_IP),
      (WIFI_EVENT, WIFI_EVENT_WIFI_READY)]"

section \<open>Basic facts\<close>

lemmas event_ids = WIFI_EVENT_WIFI_READY_def WIFI_EVENT_STA_START_def
  WIFI_EVENT_STA_CONNECTED_def WIFI_EVENT_STA_DISCONNECTED_def IP_EVENT_STA_GOT_IP_def
  ESP_EVENT_ANY_ID_def

lemma sends_simps [simp]:
  "sends [] = []"
  "sends (a # acts) = send_of a @ sends acts"
  "sends (acts @ acts') = sends acts @ sends acts'"
  by (simp_all add: sends_def)

lemma flag_writes_simps [simp]:
  "flag_writes [] = []"
  "flag_writes (a # acts) = flag_write_of a @ flag_writes acts"
  "flag_writes (acts @ acts') = flag_writes acts @ flag_writes acts'"
  by (simp_all add: flag_writes_def)

lemma esp_calls_simps [simp]:
  "esp_calls [] = []"
  "esp_calls (a # acts) = esp_call_of a @ esp_calls acts"
  "esp_calls (acts @ acts') = esp_calls acts @ esp_calls acts'"
  by (simp_all add: esp_calls_def)

lemma new_actions_append: "trace s' = trace s @ acts \<Longrightarrow> new_actions s s' = acts"
  by (simp add: new_actions_def)

section \<open>Lifecycle operations\<close>

text \<open>
  Claim C2. When \<open>connect()\<close> is called with the initialisation flag set and the
  connection state already true, it returns normally and leaves the whole system as it
  was: the trace gains no action, so no driver start and no handler registration is
  performed.
\<close>

theorem connect_when_connected_is_noop:
  assumes "initalized s" and "connected s"
  shows "connect e s = (Returned, s)"
  using assms by (simp add: connect_def isConnected_def)

theorem connect_when_connected_is_noop_witness:
  "initalized connected_system \<and> connected connected_system \<and>
   connect env_ok connected_system = (Returned, connected_system)"
  using connect_when_connected_is_noop [of connected_system env_ok]
  by (simp add: connected_system_def Singleton_def)

text \<open>
  Claim C3. While the initialisation flag is false, \<open>connect()\<close> and \<open>disconnect()\<close>
  each throw the runtime error "client not initialized" and leave the whole system as it
  was: no driver call is added to the trace, and the connected flag and the subscriber
  registry are not written.
\<close>

theorem uninitialised_calls_throw:
  assumes "\<not> initalized s"
  shows "connect e s =
           (Threw (runtime_error ''WifiClient::connect: client not initialized''), s) \<and>
         disconnect e s =
           (Threw (runtime_error ''WifiClient::disconnect: client not initialized''), s)"
  using assms by (simp add: connect_def disconnect_def)

theorem uninitialised_calls_throw_witness:
  "\<not> initalized Singleton \<and>
   connect env_ok Singleton =
     (Threw (runtime_error ''WifiClient::connect: client not initialized''), Singleton) \<and>
   disconnect env_ok Singleton =
     (Threw (runtime_error ''WifiClient::disconnect: client not initialized''), Singleton)"
  using uninitialised_calls_throw [of Singleton env_ok]
  by (simp add: Singleton_def)

text \<open>
  Claim C8. When \<open>disconnect()\<close> is called initialised and connected and every
  underlying call succeeds, it stops the driver, then unregisters the handler for the
  wifi events, then for the address event, then writes the connected flag to false, and
  returns. Whatever the calls return, the driver stop is the first thing it does, and
  the only driver calls after it are the two unregistrations, in that order.
\<close>

theorem disconnect_stops_then_unregisters:
  assumes "initalized s" and "connected s"
  shows "((\<forall>n c. esp_result e n c = ESP_OK) \<longrightarrow>
           disconnect e s = (Returned, s\<lparr>connected := False, trace := trace s @
             [Esp esp_wifi_stop ESP_OK,
              Esp (esp_event_handler_unregister WIFI_EVENT ESP_EVENT_ANY_ID) ESP_OK,
              Esp (esp_event_handler_unregister IP_EVENT IP_EVENT_STA_GOT_IP) ESP_OK,
              SetConnected False]\<rparr>)) \<and>
         (\<exists>r rest. new_actions s (snd (disconnect e s)) = Esp esp_wifi_stop r # rest \<and>
            prefix (esp_calls rest)
              [esp_event_handler_unregister WIFI_EVENT ESP_EVENT_ANY_ID,
               esp_event_handler_unregister IP_EVENT IP_EVENT_STA_GOT_IP])"
  using assms
  by (simp add: disconnect_def isConnected_def esp_call_def emit_def setConnected_def Let_def
      new_actions_def esp_calls_def)

theorem disconnect_stops_then_unregisters_witness:
  "initalized connected_system \<and> connected connected_system \<and>
   (\<forall>n c. esp_result env_ok n c = ESP_OK) \<and>
   disconnect env_ok connected_system =
     (Returned, connected_system\<lparr>connected := False, trace :=
        [Esp esp_wifi_stop ESP_OK,
         Esp (esp_event_handler_unregister WIFI_EVENT ESP_EVENT_ANY_ID) ESP_OK,
         Esp (esp_event_handler_unregister IP_EVENT IP_EVENT_STA_GOT_IP) ESP_OK,
         SetConnected False]\<rparr>)"
  using disconnect_stops_then_unregisters [of connected_system env_ok]
  by (simp add: connected_system_def Singleton_def env_ok_def)

text \<open>
  Claim C9, as stated, at a concrete input. The client is initialised and not connected;
  the first \<open>connect()\<close> returns and the flag is still false; in the second \<open>connect()\<close>
  the first registration returns \<open>ESP_FAIL\<close>. The second call then makes that one
  registration call and throws: it performs neither the second registration nor the
  driver start.
\<close>

theorem second_connect_counterexample:
  "initalized ready_system \<and> \<not> connected ready_system \<and>
   fst (connect env_later_calls_fail ready_system) = Returned \<and>
   \<not> connected (snd (connect env_later_calls_fail ready_system)) \<and>
   esp_calls (new_actions (snd (connect env_later_calls_fail ready_system))
     (snd (connect env_later_calls_fail (snd (connect env_later_calls_fail ready_system)))))
     = [esp_event_handler_register WIFI_EVENT ESP_EVENT_ANY_ID] \<and>
   esp_wifi_start \<notin> set (esp_calls
     (new_actions (snd (connect env_later_calls_fail ready_system))
       (snd (connect env_later_calls_fail
          (snd (connect env_later_calls_fail ready_system))))))"
  by (simp add: connect_def ready_system_def Singleton_def env_later_calls_fail_def
      isConnected_def esp_call_def emit_def Let_def new_actions_def esp_calls_def
      ESP_OK_def ESP_FAIL_def)

text \<open>
  Claim C9, amended. \<open>connect()\<close> reads the two flags only, whatever the trace holds.
  After a \<open>connect()\<close> made initialised and not connected, the client is still
  initialised and not connected, and a second \<open>connect()\<close> starts with the registration
  for the wifi events again. If every driver call of the second \<open>connect()\<close> succeeds, it
  performs both registrations and the driver start and returns; after a first call that
  returned, the driver has then been asked for each registration twice.
\<close>

theorem second_connect_registers_again:
  assumes "initalized s" and "\<not> connected s"
  shows "initalized (snd (connect e s)) \<and> \<not> connected (snd (connect e s)) \<and>
    (\<exists>r rest. new_actions (snd (connect e s)) (snd (connect e (snd (connect e s)))) =
        Esp (esp_event_handler_register WIFI_EVENT ESP_EVENT_ANY_ID) r # rest) \<and>
    ((\<forall>n c. length (trace (snd (connect e s))) \<le> n \<longrightarrow> esp_result e n c = ESP_OK) \<longrightarrow>
       connect e (snd (connect e s)) =
         (Returned, (snd (connect e s))\<lparr>trace := trace (snd (connect e s)) @
            [Esp (esp_event_handler_register WIFI_EVENT ESP_EVENT_ANY_ID) ESP_OK,
             Esp (esp_event_handler_register IP_EVENT IP_EVENT_STA_GOT_IP) ESP_OK,
             Esp esp_wifi_start ESP_OK]\<rparr>) \<and>
       (fst (connect e s) = Returned \<longrightarrow>
          esp_calls (new_actions s (snd (connect e (snd (connect e s))))) =
            [esp_event_handler_register WIFI_EVENT ESP_EVENT_ANY_ID,
             esp_event_handler_register IP_EVENT IP_EVENT_STA_GOT_IP,
             esp_wifi_start,
             esp_event_handler_register WIFI_EVENT ESP_EVENT_ANY_ID,
             esp_event_handler_register IP_EVENT IP_EVENT_STA_GOT_IP,
             esp_wifi_start]))"
proof -
  obtain o1 s1 where c1: "connect e s = (o1, s1)"
    by (cases "connect e s")
  have flags: "initalized s1 \<and> \<not> connected s1"
    using assms c1
    by (auto simp: connect_def isConnected_def esp_call_def emit_def Let_def
        split: if_splits)
  have first: "\<exists>r rest. new_actions s1 (snd (connect e s1)) =
        Esp (esp_event_handler_register WIFI_EVENT ESP_EVENT_ANY_ID) r # rest"
    using flags
    by (simp add: connect_def isConnected_def esp_call_def emit_def Let_def new_actions_def)
  have again: "connect e s1 = (Returned, s1\<lparr>trace := trace s1 @
            [Esp (esp_event_handler_register WIFI_EVENT ESP_EVENT_ANY_ID) ESP_OK,
             Esp (esp_event_handler_register IP_EVENT IP_EVENT_STA_GOT_IP) ESP_OK,
             Esp esp_wifi_start ESP_OK]\<rparr>)"
    if "\<forall>n c. length (trace s1) \<le> n \<longrightarrow> esp_result e n c = ESP_OK"
    using flags that
    by (simp add: connect_def isConnected_def esp_call_def emit_def Let_def)
  have once: "esp_calls (new_actions s s1) =
            [esp_event_handler_register WIFI_EVENT ESP_EVENT_ANY_ID,
             esp_event_handler_register IP_EVENT IP_EVENT_STA_GOT_IP,
             esp_wifi_start] \<and>
          length (trace s) \<le> length (trace s1) \<and>
          take (length (trace s)) (trace s1) = trace s"
    if "o1 = Returned"
    using assms c1 that
    by (auto simp: connect_def isConnected_def esp_call_def emit_def Let_def
        new_actions_def esp_calls_def split: if_splits)
  have twice: "esp_calls (new_actions s (snd (connect e s1))) =
            [esp_event_handler_register WIFI_EVENT ESP_EVENT_ANY_ID,
             esp_event_handler_register IP_EVENT IP_EVENT_STA_GOT_IP,
             esp_wifi_start,
             esp_event_handler_register WIFI_EVENT ESP_EVENT_ANY_ID,
             esp_event_handler_register IP_EVENT IP_EVENT_STA_GOT_IP,
             esp_wifi_start]"
    if a: "\<forall>n c. length (trace s1) \<le> n \<longrightarrow> esp_result e n c = ESP_OK"
      and b: "o1 = Returned"
    using again [OF a] once [OF b]
    by (simp add: new_actions_def esp_calls_def)
  show ?thesis
    using c1 flags first again twice by simp
qed

theorem second_connect_registers_again_witness:
  "initalized ready_system \<and> \<not> connected ready_system \<and>
   (\<forall>n c. esp_result env_ok n c = ESP_OK) \<and>
   fst (connect env_ok ready_system) = Returned \<and>
   esp_calls (new_actions ready_system
     (snd (connect env_ok (snd (connect env_ok ready_system))))) =
     [esp_event_handler_register WIFI_EVENT ESP_EVENT_ANY_ID,
      esp_event_handler_register IP_EVENT IP_EVENT_STA_GOT_IP,
      esp_wifi_start,
      esp_event_handler_register WIFI_EVENT ESP_EVENT_ANY_ID,
      esp_event_handler_register IP_EVENT IP_EVENT_STA_GOT_IP,
      esp_wifi_start]"
proof -
  have init: "initalized ready_system" and off: "\<not> connected ready_system"
    by (simp_all add: ready_system_def Singleton_def)
  have ok: "\<forall>n c. esp_result env_ok n c = ESP_OK"
    by (simp add: env_ok_def)
  have ret: "fst (connect env_ok ready_system) = Returned"
    by (simp add: connect_def ready_system_def Singleton_def env_ok_def isConnected_def
        esp_call_def emit_def Let_def)
  have later: "\<forall>n c. length (trace (snd (connect env_ok ready_system))) \<le> n \<longrightarrow>
      esp_result env_ok n c = ESP_OK"
    using ok by simp
  show ?thesis
    using second_connect_registers_again [OF init off, of env_ok] init off ok later ret
    by blast
qed

section \<open>Subscriber registration\<close>

text \<open>
  Claim C7. \<open>registerEventReceiver\<close> with a size of zero throws the invalid-argument
  error and leaves the whole system as it was: no queue is created (the live queues and
  the trace are unchanged) and the subscriber registry is unchanged.
\<close>

theorem register_size_zero_throws:
  "registerEventReceiver e queueHandle 0 s =
     (Threw (invalid_argument
        ''WifiClient::registerEventReceiver: Queue size must be greater 0''), s)"
  by (simp add: registerEventReceiver_def)

text \<open>
  Claim C10. With a size other than zero and a queue creation that fails,
  \<open>registerEventReceiver\<close> throws the runtime error; the subscriber registry and the
  live queues are unchanged, while the caller's handle variable now holds the null
  handle, whatever it held before.
\<close>

theorem register_failure_overwrites_handle:
  assumes "queueSize \<noteq> 0" and "xQueueCreate_result e (length (trace s)) = 0"
  shows "registerEventReceiver e queueHandle queueSize s =
     (Threw (runtime_error
        ''WifiClient::registerEventReceiver: Queue could not be created''),
      s\<lparr>handle_vars := (handle_vars s)(queueHandle := 0),
        trace := trace s @ [XQueueCreate (unat queueSize) 0]\<rparr>) \<and>
     eventReceivers (snd (registerEventReceiver e queueHandle queueSize s)) =
       eventReceivers s \<and>
     queues (snd (registerEventReceiver e queueHandle queueSize s)) = queues s \<and>
     handle_vars (snd (registerEventReceiver e queueHandle queueSize s)) queueHandle = 0"
  using assms
  by (simp add: registerEventReceiver_def xQueueCreate_def emit_def Let_def)

theorem register_failure_overwrites_handle_witness:
  "(1 :: 8 word) \<noteq> 0 \<and>
   xQueueCreate_result env_later_calls_fail (length (trace caller_system)) = 0 \<and>
   handle_vars caller_system 7 = 5 \<and>
   fst (registerEventReceiver env_later_calls_fail 7 1 caller_system) =
     Threw (runtime_error
       ''WifiClient::registerEventReceiver: Queue could not be created'') \<and>
   eventReceivers (snd (registerEventReceiver env_later_calls_fail 7 1 caller_system)) =
     eventReceivers caller_system \<and>
   handle_vars (snd (registerEventReceiver env_later_calls_fail 7 1 caller_system)) 7 = 0"
proof -
  have a: "(1 :: 8 word) \<noteq> 0"
    by simp
  have b: "xQueueCreate_result env_later_calls_fail (length (trace caller_system)) = 0"
    by (simp add: env_later_calls_fail_def)
  have c: "handle_vars caller_system 7 = 5"
    by (simp add: caller_system_def Singleton_def)
  show ?thesis
    using register_failure_overwrites_handle [OF a b, of 7] a b c by simp
qed

section \<open>Initialisation\<close>

text \<open>
  Claim C4 at a concrete input. The network name has 33 characters, one more than the
  driver's field holds, and every driver call succeeds. \<open>init\<close> has no test that rejects
  this configuration: it reaches the \<open>memcpy\<close> into the 32-byte field with 33 bytes to
  copy and writes past the end of the field.
\<close>

theorem init_long_ssid_writes_past_end:
  "length (ssid long_ssid_config) = 33 \<and> sta_ssid_size = 32 \<and>
   fst (init env_ok long_ssid_config Singleton) = Wrote_past_end"
  by (simp add: init_def env_ok_def long_ssid_config_def Singleton_def esp_call_def emit_def
      memcpy_field_def sta_ssid_size_def sta_password_size_def ESP_OK_def Let_def)

text \<open>
  Within the bounds the copies are safe: a configuration whose name and credential fit
  the fields is taken by \<open>init\<close>, which sets the initialisation flag when every driver
  call succeeds.
\<close>

lemma init_in_bounds:
  assumes "length (ssid config) \<le> sta_ssid_size"
    and "length (password config) \<le> sta_password_size"
    and "\<forall>n c. esp_result e n c = ESP_OK"
  shows "fst (init e config s) = Returned \<and> initalized (snd (init e config s))"
  using assms
  by (simp add: init_def esp_call_def emit_def memcpy_field_def Let_def)

section \<open>Notification fan-out\<close>

lemma min_room: "l < c \<Longrightarrow> min (c - l) (Suc k) = Suc (min (c - Suc l) k)"
  by (simp add: min_def) arith

lemma fireEvent_loop_Cons:
  "fireEvent_loop ev (r # rs) s =
     (case queues s (handle_vars s r) of
        None \<Rightarrow> None
      | Some q \<Rightarrow> fireEvent_loop ev rs (send_step ev (handle_vars s r) q s))"
  by (simp add: xQueueSend_def send_step_def emit_def ESP_LOGE_def pdTRUE_def errQUEUE_FULL_def
      split: option.splits)

lemma send_step_frame:
  "handle_vars (send_step ev h q s) = handle_vars s"
  "eventReceivers (send_step ev h q s) = eventReceivers s"
  "connected (send_step ev h q s) = connected s"
  "initalized (send_step ev h q s) = initalized s"
  "connectedMutex (send_step ev h q s) = connectedMutex s"
  by (simp_all add: send_step_def)

lemma send_step_live:
  "queues s h = Some q \<Longrightarrow> (queues (send_step ev h q s) h' = None) = (queues s h' = None)"
  by (simp add: send_step_def)

lemma fireEvent_loop_total:
  "list_all (\<lambda>r. queues s (handle_vars s r) \<noteq> None) rs \<Longrightarrow> \<exists>s'. fireEvent_loop ev rs s = Some s'"
proof (induction rs arbitrary: s)
  case Nil
  then show ?case by simp
next
  case (Cons r rs)
  then obtain q where q: "queues s (handle_vars s r) = Some q" by auto
  have "list_all (\<lambda>r'. queues (send_step ev (handle_vars s r) q s) (handle_vars (send_step ev (handle_vars s r) q s) r') \<noteq> None) rs"
    using Cons.prems q by (simp add: send_step_frame send_step_live)
  from Cons.IH [OF this] show ?case
    using q by (simp add: fireEvent_loop_Cons del: fireEvent_loop.simps)
qed

lemma fireEvent_loop_frame:
  "fireEvent_loop ev rs s = Some s' \<Longrightarrow>
     handle_vars s' = handle_vars s \<and> eventReceivers s' = eventReceivers s \<and>
     connected s' = connected s \<and> initalized s' = initalized s \<and>
     connectedMutex s' = connectedMutex s \<and>
     (\<forall>h. (queues s' h = None) = (queues s h = None))"
proof (induction rs arbitrary: s)
  case Nil
  then show ?case by simp
next
  case (Cons r rs)
  from Cons.prems obtain q where q: "queues s (handle_vars s r) = Some q"
    and run: "fireEvent_loop ev rs (send_step ev (handle_vars s r) q s) = Some s'"
    by (auto simp: fireEvent_loop_Cons simp del: fireEvent_loop.simps split: option.splits)
  from Cons.IH [OF run] q show ?case
    by (simp add: send_step_frame send_step_live)
qed

lemma fireEvent_loop_trace:
  "fireEvent_loop ev rs s = Some s' \<Longrightarrow>
     \<exists>acts. trace s' = trace s @ acts \<and>
       map (\<lambda>(h, ev', t, r). (h, ev', t)) (sends acts) = map (\<lambda>r. (handle_vars s r, ev, 0)) rs \<and>
       flag_writes acts = [] \<and> esp_calls acts = [] \<and>
       (\<forall>(h, ev', t, r) \<in> set (sends acts). (r = pdTRUE \<or> r = errQUEUE_FULL) \<and> (is_full s h \<longrightarrow> r = errQUEUE_FULL))"
proof (induction rs arbitrary: s)
  case Nil
  then show ?case by simp
next
  case (Cons r rs)
  let ?h = "handle_vars s r"
  from Cons.prems obtain q where q: "queues s ?h = Some q"
    and run: "fireEvent_loop ev rs (send_step ev ?h q s) = Some s'"
    by (auto simp: fireEvent_loop_Cons simp del: fireEvent_loop.simps split: option.splits)
  let ?s1 = "send_step ev ?h q s"
  from Cons.IH [OF run] obtain acts where acts: "trace s' = trace ?s1 @ acts"
    "map (\<lambda>(h, ev', t, r). (h, ev', t)) (sends acts) = map (\<lambda>r. (handle_vars ?s1 r, ev, 0)) rs"
    "flag_writes acts = []" "esp_calls acts = []"
    "\<forall>(h, ev', t, r) \<in> set (sends acts). (r = pdTRUE \<or> r = errQUEUE_FULL) \<and> (is_full ?s1 h \<longrightarrow> r = errQUEUE_FULL)"
    by blast
  have full: "is_full s h \<Longrightarrow> is_full ?s1 h" for h
    using q by (auto simp: is_full_def send_step_def split: option.splits)
  show ?case
  proof (cases "length (items q) < capacity q")
    case True
    have "trace s' = trace s @ (XQueueSend ?h ev 0 pdTRUE # acts)"
      using acts(1) True by (simp add: send_step_def)
    moreover have "\<not> is_full s ?h" using q True by (simp add: is_full_def)
    ultimately show ?thesis
      using acts(2-5) full
      by (intro exI [of _ "XQueueSend ?h ev 0 pdTRUE # acts"])
        (auto simp: send_step_frame)
  next
    case False
    have "trace s' = trace s @ (XQueueSend ?h ev 0 errQUEUE_FULL # LogE ''Could not fire event, receive queue is full.'' # acts)"
      using acts(1) False by (simp add: send_step_def)
    then show ?thesis
      using acts(2-5) full
      by (intro exI [of _ "XQueueSend ?h ev 0 errQUEUE_FULL # LogE ''Could not fire event, receive queue is full.'' # acts"])
        (auto simp: send_step_frame)
  qed
qed

lemma fireEvent_loop_items:
  "fireEvent_loop ev rs s = Some s' \<Longrightarrow> queues s h = Some q \<Longrightarrow>
     queues s' h = Some (q\<lparr>items := items q @
       replicate (min (capacity q - length (items q)) (count_list (map (handle_vars s) rs) h)) ev\<rparr>)"
proof (induction rs arbitrary: s q)
  case Nil
  then show ?case by simp
next
  case (Cons r rs)
  let ?h = "handle_vars s r"
  from Cons.prems(1) obtain q0 where q0: "queues s ?h = Some q0"
    and run: "fireEvent_loop ev rs (send_step ev ?h q0 s) = Some s'"
    by (auto simp: fireEvent_loop_Cons simp del: fireEvent_loop.simps split: option.splits)
  let ?s1 = "send_step ev ?h q0 s"
  show ?case
  proof (cases "h = ?h \<and> length (items q0) < capacity q0")
    case True
    then have q: "q = q0" using q0 Cons.prems(2) by simp
    have "queues ?s1 h = Some (q\<lparr>items := items q @ [ev]\<rparr>)"
      using True q by (simp add: send_step_def)
    from Cons.IH [OF run this] True q show ?thesis
      by (simp add: send_step_frame min_room replicate_append_same)
  next
    case False
    then have "queues ?s1 h = Some q"
      using Cons.prems(2) by (auto simp: send_step_def)
    from Cons.IH [OF run this] False q0 Cons.prems(2) show ?thesis
      by (auto simp: send_step_frame)
  qed
qed

lemma fireEvent_loop_reaches:
  assumes run: "fireEvent_loop ev rs s = Some s'"
    and r: "r \<in> set rs"
    and q: "queues s (handle_vars s r) = Some q"
    and room: "\<not> is_full s (handle_vars s r)"
  shows "\<exists>n. queues s' (handle_vars s r) =
     Some (q\<lparr>items := items q @ replicate (Suc n) ev\<rparr>)"
proof -
  let ?k = "min (capacity q - length (items q))
      (count_list (map (handle_vars s) rs) (handle_vars s r))"
  from room q have "length (items q) < capacity q"
    by (simp add: is_full_def)
  moreover have "0 < count_list (map (handle_vars s) rs) (handle_vars s r)"
    using r by (simp add: count_list_0_iff zero_less_iff_neq_zero)
  ultimately obtain n where "?k = Suc n"
    by (cases ?k) (auto simp: min_def split: if_splits)
  with fireEvent_loop_items [OF run q] show ?thesis
    by auto
qed

text \<open>
  Claim C6. With every registered address holding a live queue, the fan-out of
  \<open>fireEvent\<close> ends, and it makes exactly one send per registered queue, in registry
  order, each with a wait of zero ticks, so a full queue neither blocks the handler nor
  stops the loop before the queues after it. Every send to a queue that was at capacity
  returns \<open>errQUEUE_FULL\<close> and such a queue is left as it was: the notification is
  dropped for it alone. Every queue ends with its old items followed by one copy of the
  event per registration of it, as far as it has room, whatever the state of the other
  queues; in particular every registered queue with room receives the event.
\<close>

theorem fan_out_passes_full_queues:
  assumes "receivers_live s"
  shows "\<exists>s'. fireEvent ev s = Some s' \<and>
     map (\<lambda>(h, ev', t, r). (h, ev', t)) (sends (new_actions s s')) =
       map (\<lambda>r. (handle_vars s r, ev, 0)) (eventReceivers s) \<and>
     (\<forall>(h, ev', t, r) \<in> set (sends (new_actions s s')). is_full s h \<longrightarrow> r = errQUEUE_FULL) \<and>
     (\<forall>h q. queues s h = Some q \<longrightarrow>
        queues s' h = Some (q\<lparr>items := items q @
          replicate (min (capacity q - length (items q))
            (count_list (map (handle_vars s) (eventReceivers s)) h)) ev\<rparr>)) \<and>
     (\<forall>h. is_full s h \<longrightarrow> queues s' h = queues s h) \<and>
     (\<forall>r \<in> set (eventReceivers s). \<not> is_full s (handle_vars s r) \<longrightarrow>
        (\<exists>q n. queues s (handle_vars s r) = Some q \<and>
           queues s' (handle_vars s r) =
             Some (q\<lparr>items := items q @ replicate (Suc n) ev\<rparr>)))"
proof -
  from assms obtain s' where run: "fireEvent_loop ev (eventReceivers s) s = Some s'"
    using fireEvent_loop_total [of s "eventReceivers s" ev] by (auto simp: receivers_live_def)
  from fireEvent_loop_trace [OF run] obtain acts where acts: "trace s' = trace s @ acts"
    "map (\<lambda>(h, ev', t, r). (h, ev', t)) (sends acts) = map (\<lambda>r. (handle_vars s r, ev, 0)) (eventReceivers s)"
    "\<forall>(h, ev', t, r) \<in> set (sends acts). (r = pdTRUE \<or> r = errQUEUE_FULL) \<and> (is_full s h \<longrightarrow> r = errQUEUE_FULL)"
    by blast
  have new: "new_actions s s' = acts"
    using acts(1) by (rule new_actions_append)
  have items: "queues s' h = Some (q\<lparr>items := items q @
          replicate (min (capacity q - length (items q))
            (count_list (map (handle_vars s) (eventReceivers s)) h)) ev\<rparr>)"
    if "queues s h = Some q" for h q
    using fireEvent_loop_items [OF run that] .
  have full: "queues s' h = queues s h" if "is_full s h" for h
  proof -
    from that obtain q where q: "queues s h = Some q" "capacity q \<le> length (items q)"
      by (auto simp: is_full_def split: option.splits)
    from items [OF q(1)] q show ?thesis by simp
  qed
  have reach: "\<exists>q n. queues s (handle_vars s r) = Some q \<and>
      queues s' (handle_vars s r) = Some (q\<lparr>items := items q @ replicate (Suc n) ev\<rparr>)"
    if r: "r \<in> set (eventReceivers s)" and room: "\<not> is_full s (handle_vars s r)" for r
  proof -
    from assms r obtain q where q: "queues s (handle_vars s r) = Some q"
      by (auto simp: receivers_live_def list_all_iff)
    from fireEvent_loop_reaches [OF run r q room] q show ?thesis
      by blast
  qed
  have "fireEvent ev s = Some s'"
    using run by (simp add: fireEvent_def)
  moreover have "\<forall>(h, ev', t, r) \<in> set (sends (new_actions s s')).
      is_full s h \<longrightarrow> r = errQUEUE_FULL"
    using acts(3) new by auto
  ultimately show ?thesis
    using new acts(2) items full reach
    by (intro exI [of _ s']) blast
qed

theorem fan_out_passes_full_queues_witness:
  "receivers_live two_queue_system \<and> is_full two_queue_system 5 \<and>
   queues (the (fireEvent DISCONNECTED two_queue_system)) 5 =
     Some \<lparr>capacity = 1, items = [CONNECTED]\<rparr> \<and>
   queues (the (fireEvent DISCONNECTED two_queue_system)) 6 =
     Some \<lparr>capacity = 1, items = [DISCONNECTED]\<rparr>"
proof -
  have live: "receivers_live two_queue_system"
    by (simp add: receivers_live_def two_queue_system_def Singleton_def)
  have full: "is_full two_queue_system 5"
    by (simp add: is_full_def two_queue_system_def Singleton_def)
  have q5: "queues two_queue_system 5 = Some \<lparr>capacity = 1, items = [CONNECTED]\<rparr>"
    and q6: "queues two_queue_system 6 = Some \<lparr>capacity = 1, items = []\<rparr>"
    and hv: "map (handle_vars two_queue_system) (eventReceivers two_queue_system) = [5, 6]"
    by (simp_all add: two_queue_system_def Singleton_def)
  from fan_out_passes_full_queues [OF live, of DISCONNECTED] obtain s' where
    s': "fireEvent DISCONNECTED two_queue_system = Some s'"
    and items: "\<forall>h q. queues two_queue_system h = Some q \<longrightarrow>
        queues s' h = Some (q\<lparr>items := items q @
          replicate (min (capacity q - length (items q))
            (count_list (map (handle_vars two_queue_system) (eventReceivers two_queue_system)) h)) DISCONNECTED\<rparr>)"
    by blast
  from items q5 have "queues s' 5 = Some \<lparr>capacity = 1, items = [CONNECTED]\<rparr>"
    by (simp add: hv)
  moreover from items q6 have "queues s' 6 = Some \<lparr>capacity = 1, items = [DISCONNECTED]\<rparr>"
    by (simp add: hv)
  ultimately show ?thesis using live full s' by simp
qed

section \<open>The driver event handler\<close>

lemma fireEvent_result:
  assumes "receivers_live s"
  shows "\<exists>s1 fan. fireEvent ev s = Some s1 \<and> trace s1 = trace s @ fan \<and>
     map (\<lambda>(h, ev', t, r). (h, ev')) (sends fan) = map (\<lambda>r. (handle_vars s r, ev)) (eventReceivers s) \<and>
     flag_writes fan = [] \<and> esp_calls fan = [] \<and>
     connected s1 = connected s \<and> initalized s1 = initalized s \<and>
     eventReceivers s1 = eventReceivers s \<and> handle_vars s1 = handle_vars s \<and>
     receivers_live s1 \<and>
     (\<forall>h q. queues s h = Some q \<longrightarrow>
              queues s1 h = Some (q\<lparr>items := items q @
                replicate (min (capacity q - length (items q))
                  (count_list (map (handle_vars s) (eventReceivers s)) h)) ev\<rparr>))"
proof -
  from assms obtain s1 where run: "fireEvent_loop ev (eventReceivers s) s = Some s1"
    using fireEvent_loop_total [of s "eventReceivers s" ev] by (auto simp: receivers_live_def)
  from fireEvent_loop_trace [OF run] obtain fan where fan: "trace s1 = trace s @ fan"
    "map (\<lambda>(h, ev', t, r). (h, ev', t)) (sends fan) = map (\<lambda>r. (handle_vars s r, ev, 0)) (eventReceivers s)"
    "flag_writes fan = []" "esp_calls fan = []"
    by blast
  have "map (\<lambda>(h, ev', t, r). (h, ev')) (sends fan) =
        map (\<lambda>(h, ev', t). (h, ev')) (map (\<lambda>(h, ev', t, r). (h, ev', t)) (sends fan))"
    by (simp add: case_prod_unfold comp_def)
  also have "\<dots> = map (\<lambda>r. (handle_vars s r, ev)) (eventReceivers s)"
    by (simp add: fan(2) comp_def)
  finally have pairs: "map (\<lambda>(h, ev', t, r). (h, ev')) (sends fan) = map (\<lambda>r. (handle_vars s r, ev)) (eventReceivers s)" .
  note fr = fireEvent_loop_frame [OF run]
  have "receivers_live s1"
    using assms fr by (simp add: receivers_live_def)
  moreover have "fireEvent ev s = Some s1"
    using run by (simp add: fireEvent_def)
  moreover have "(\<forall>h q. queues s h = Some q \<longrightarrow>
              queues s1 h = Some (q\<lparr>items := items q @
                replicate (min (capacity q - length (items q))
                  (count_list (map (handle_vars s) (eventReceivers s)) h)) ev\<rparr>))"
    using fireEvent_loop_items [OF run] by blast
  ultimately show ?thesis
    using fan(1,3,4) pairs fr by blast
qed

text \<open>
  Claim C5. On "station disconnected" with the connected flag true, the handler first
  runs the fan-out of \<open>DISCONNECTED\<close>, one send per registered queue, during which the
  flag is still true, and only then writes the flag to false; nothing is sent after that
  write and the queues are as the fan-out left them: each holds its old items and the
  copies of the notification it had room for. On "address acquired" with the flag false
  it does the same with \<open>CONNECTED\<close> and the write of true. When the flag already has the
  target value, the handler sends nothing and the queues stay as they were.
\<close>

theorem notify_before_flag_write:
  assumes "receivers_live s"
  shows "(connected s \<longrightarrow> (\<exists>s1 fan s' rest.
            fireEvent DISCONNECTED s = Some s1 \<and> trace s1 = trace s @ fan \<and> connected s1 \<and>
            WifiClient_event_handler e WIFI_EVENT WIFI_EVENT_STA_DISCONNECTED s = Some s' \<and>
            trace s' = trace s @ fan @ SetConnected False # rest \<and>
            map (\<lambda>(h, ev, t, r). (h, ev)) (sends fan) =
              map (\<lambda>r. (handle_vars s r, DISCONNECTED)) (eventReceivers s) \<and>
            flag_writes fan = [] \<and> sends rest = [] \<and> flag_writes rest = [] \<and>
            (\<forall>h q. queues s h = Some q \<longrightarrow>
              queues s1 h = Some (q\<lparr>items := items q @
                replicate (min (capacity q - length (items q))
                  (count_list (map (handle_vars s) (eventReceivers s)) h)) DISCONNECTED\<rparr>)) \<and>
            queues s' = queues s1 \<and> \<not> connected s')) \<and>
         (\<not> connected s \<longrightarrow> (\<exists>s1 fan s' rest.
            fireEvent CONNECTED s = Some s1 \<and> trace s1 = trace s @ fan \<and> \<not> connected s1 \<and>
            WifiClient_event_handler e IP_EVENT IP_EVENT_STA_GOT_IP s = Some s' \<and>
            trace s' = trace s @ fan @ SetConnected True # rest \<and>
            map (\<lambda>(h, ev, t, r). (h, ev)) (sends fan) =
              map (\<lambda>r. (handle_vars s r, CONNECTED)) (eventReceivers s) \<and>
            flag_writes fan = [] \<and> sends rest = [] \<and> flag_writes rest = [] \<and>
            (\<forall>h q. queues s h = Some q \<longrightarrow>
              queues s1 h = Some (q\<lparr>items := items q @
                replicate (min (capacity q - length (items q))
                  (count_list (map (handle_vars s) (eventReceivers s)) h)) CONNECTED\<rparr>)) \<and>
            queues s' = queues s1 \<and> connected s')) \<and>
         (\<not> connected s \<longrightarrow> (\<exists>s'.
            WifiClient_event_handler e WIFI_EVENT WIFI_EVENT_STA_DISCONNECTED s = Some s' \<and>
            sends (new_actions s s') = [] \<and> queues s' = queues s \<and> \<not> connected s')) \<and>
         (connected s \<longrightarrow> (\<exists>s'.
            WifiClient_event_handler e IP_EVENT IP_EVENT_STA_GOT_IP s = Some s' \<and>
            sends (new_actions s s') = [] \<and> queues s' = queues s \<and> connected s'))"
proof (intro conjI impI)
  assume on: "connected s"
  from fireEvent_result [OF assms, of DISCONNECTED] obtain s1 fan where
    f: "fireEvent DISCONNECTED s = Some s1" "trace s1 = trace s @ fan"
      "map (\<lambda>(h, ev', t, r). (h, ev')) (sends fan) =
         map (\<lambda>r. (handle_vars s r, DISCONNECTED)) (eventReceivers s)"
      "flag_writes fan = []" "connected s1 = connected s"
      "(\<forall>h q. queues s h = Some q \<longrightarrow>
              queues s1 h = Some (q\<lparr>items := items q @
                replicate (min (capacity q - length (items q))
                  (count_list (map (handle_vars s) (eventReceivers s)) h)) DISCONNECTED\<rparr>))"
    by blast
  let ?s' = "log_connect_error e (esp_call e esp_wifi_connect (setConnected False s1))"
  let ?r = "esp_result e (Suc (length (trace s1))) esp_wifi_connect"
  let ?rest = "Esp esp_wifi_connect ?r #
    (if ?r \<noteq> ESP_OK then [LogE (''esp_wifi_connect had an error: '' @ esp_err_to_name e ?r)] else [])"
  have h: "WifiClient_event_handler e WIFI_EVENT WIFI_EVENT_STA_DISCONNECTED s = Some ?s'"
    using on f(1) by (simp add: WifiClient_event_handler_def isConnected_def event_ids)
  have t: "trace ?s' = trace s @ fan @ SetConnected False # ?rest"
    using f(2)
    by (simp add: log_connect_error_def esp_call_def setConnected_def emit_def ESP_LOGE_def Let_def)
  have q: "queues ?s' = queues s1 \<and> \<not> connected ?s'"
    by (simp add: log_connect_error_def esp_call_def setConnected_def emit_def ESP_LOGE_def Let_def)
  have r: "sends ?rest = [] \<and> flag_writes ?rest = []"
    by simp
  show "\<exists>s1 fan s' rest.
            fireEvent DISCONNECTED s = Some s1 \<and> trace s1 = trace s @ fan \<and> connected s1 \<and>
            WifiClient_event_handler e WIFI_EVENT WIFI_EVENT_STA_DISCONNECTED s = Some s' \<and>
            trace s' = trace s @ fan @ SetConnected False # rest \<and>
            map (\<lambda>(h, ev, t, r). (h, ev)) (sends fan) =
              map (\<lambda>r. (handle_vars s r, DISCONNECTED)) (eventReceivers s) \<and>
            flag_writes fan = [] \<and> sends rest = [] \<and> flag_writes rest = [] \<and>
            (\<forall>h q. queues s h = Some q \<longrightarrow>
              queues s1 h = Some (q\<lparr>items := items q @
                replicate (min (capacity q - length (items q))
                  (count_list (map (handle_vars s) (eventReceivers s)) h)) DISCONNECTED\<rparr>)) \<and>
            queues s' = queues s1 \<and> \<not> connected s'"
    by (rule exI [of _ s1], rule exI [of _ fan], rule exI [of _ ?s'], rule exI [of _ ?rest])
      (use f h t q r on in simp)
next
  assume off: "\<not> connected s"
  from fireEvent_result [OF assms, of CONNECTED] obtain s1 fan where
    f: "fireEvent CONNECTED s = Some s1" "trace s1 = trace s @ fan"
      "map (\<lambda>(h, ev', t, r). (h, ev')) (sends fan) =
         map (\<lambda>r. (handle_vars s r, CONNECTED)) (eventReceivers s)"
      "flag_writes fan = []" "connected s1 = connected s"
      "(\<forall>h q. queues s h = Some q \<longrightarrow>
              queues s1 h = Some (q\<lparr>items := items q @
                replicate (min (capacity q - length (items q))
                  (count_list (map (handle_vars s) (eventReceivers s)) h)) CONNECTED\<rparr>))"
    by blast
  let ?s' = "setConnected True s1"
  have h: "WifiClient_event_handler e IP_EVENT IP_EVENT_STA_GOT_IP s = Some ?s'"
    using off f(1) by (simp add: WifiClient_event_handler_def isConnected_def event_ids)
  have t: "trace ?s' = trace s @ fan @ SetConnected True # []"
    using f(2) by (simp add: setConnected_def emit_def)
  have q: "queues ?s' = queues s1 \<and> connected ?s'"
    by (simp add: setConnected_def emit_def)
  have r: "sends [] = [] \<and> flag_writes [] = []"
    by simp
  show "\<exists>s1 fan s' rest.
            fireEvent CONNECTED s = Some s1 \<and> trace s1 = trace s @ fan \<and> \<not> connected s1 \<and>
            WifiClient_event_handler e IP_EVENT IP_EVENT_STA_GOT_IP s = Some s' \<and>
            trace s' = trace s @ fan @ SetConnected True # rest \<and>
            map (\<lambda>(h, ev, t, r). (h, ev)) (sends fan) =
              map (\<lambda>r. (handle_vars s r, CONNECTED)) (eventReceivers s) \<and>
            flag_writes fan = [] \<and> sends rest = [] \<and> flag_writes rest = [] \<and>
            (\<forall>h q. queues s h = Some q \<longrightarrow>
              queues s1 h = Some (q\<lparr>items := items q @
                replicate (min (capacity q - length (items q))
                  (count_list (map (handle_vars s) (eventReceivers s)) h)) CONNECTED\<rparr>)) \<and>
            queues s' = queues s1 \<and> connected s'"
    by (rule exI [of _ s1], rule exI [of _ fan], rule exI [of _ ?s'], rule exI [of _ "[]"])
      (use f h t q r off in simp)
next
  assume off: "\<not> connected s"
  show "\<exists>s'. WifiClient_event_handler e WIFI_EVENT WIFI_EVENT_STA_DISCONNECTED s = Some s' \<and>
            sends (new_actions s s') = [] \<and> queues s' = queues s \<and> \<not> connected s'"
    using off
    by (simp add: WifiClient_event_handler_def isConnected_def event_ids log_connect_error_def
        esp_call_def setConnected_def emit_def ESP_LOGE_def Let_def new_actions_def)
next
  assume on: "connected s"
  show "\<exists>s'. WifiClient_event_handler e IP_EVENT IP_EVENT_STA_GOT_IP s = Some s' \<and>
            sends (new_actions s s') = [] \<and> queues s' = queues s \<and> connected s'"
    using on
    by (simp add: WifiClient_event_handler_def isConnected_def event_ids
        setConnected_def emit_def new_actions_def)
qed

theorem notify_before_flag_write_witness:
  "receivers_live connected_two_queue_system \<and> connected connected_two_queue_system \<and>
   receivers_live two_queue_system \<and> \<not> connected two_queue_system \<and>
   \<not> connected (the (WifiClient_event_handler env_ok WIFI_EVENT WIFI_EVENT_STA_DISCONNECTED
      connected_two_queue_system)) \<and>
   queues (the (WifiClient_event_handler env_ok WIFI_EVENT WIFI_EVENT_STA_DISCONNECTED
      connected_two_queue_system)) =
     queues (the (fireEvent DISCONNECTED connected_two_queue_system)) \<and>
   connected (the (WifiClient_event_handler env_ok IP_EVENT IP_EVENT_STA_GOT_IP
      two_queue_system)) \<and>
   queues (the (WifiClient_event_handler env_ok IP_EVENT IP_EVENT_STA_GOT_IP
      two_queue_system)) =
     queues (the (fireEvent CONNECTED two_queue_system)) \<and>
   queues (the (WifiClient_event_handler env_ok WIFI_EVENT WIFI_EVENT_STA_DISCONNECTED
      two_queue_system)) = queues two_queue_system \<and>
   queues (the (WifiClient_event_handler env_ok IP_EVENT IP_EVENT_STA_GOT_IP
      connected_two_queue_system)) = queues connected_two_queue_system"
proof -
  have live_on: "receivers_live connected_two_queue_system"
    and on: "connected connected_two_queue_system"
    by (simp_all add: receivers_live_def connected_two_queue_system_def two_queue_system_def
        Singleton_def)
  have live_off: "receivers_live two_queue_system"
    and off: "\<not> connected two_queue_system"
    by (simp_all add: receivers_live_def two_queue_system_def Singleton_def)
  note a = notify_before_flag_write [OF live_on, of env_ok]
  note b = notify_before_flag_write [OF live_off, of env_ok]
  from a [THEN conjunct1, THEN mp, OF on] obtain d1 d' where
    d: "fireEvent DISCONNECTED connected_two_queue_system = Some d1"
      "WifiClient_event_handler env_ok WIFI_EVENT WIFI_EVENT_STA_DISCONNECTED
         connected_two_queue_system = Some d'"
      "queues d' = queues d1" "\<not> connected d'"
    by (elim exE conjE)
  from b [THEN conjunct2, THEN conjunct1, THEN mp, OF off] obtain c1 c' where
    c: "fireEvent CONNECTED two_queue_system = Some c1"
      "WifiClient_event_handler env_ok IP_EVENT IP_EVENT_STA_GOT_IP two_queue_system = Some c'"
      "queues c' = queues c1" "connected c'"
    by (elim exE conjE)
  from b [THEN conjunct2, THEN conjunct2, THEN conjunct1, THEN mp, OF off] obtain n' where
    n: "WifiClient_event_handler env_ok WIFI_EVENT WIFI_EVENT_STA_DISCONNECTED
          two_queue_system = Some n'"
      "queues n' = queues two_queue_system"
    by (elim exE conjE)
  from a [THEN conjunct2, THEN conjunct2, THEN conjunct2, THEN mp, OF on] obtain m' where
    m: "WifiClient_event_handler env_ok IP_EVENT IP_EVENT_STA_GOT_IP
          connected_two_queue_system = Some m'"
      "queues m' = queues connected_two_queue_system"
    by (elim exE conjE)
  show ?thesis
    using live_on on live_off off d c n m by simp
qed

section \<open>Sequences of driver events\<close>

lemma fireEvent_keeps:
  "fireEvent ev s = Some s1 \<Longrightarrow> connected s1 = connected s"
  "fireEvent ev s = Some s1 \<Longrightarrow> receivers_live s \<Longrightarrow> receivers_live s1"
  using fireEvent_loop_frame [of ev "eventReceivers s" s s1]
  by (simp_all add: fireEvent_def receivers_live_def)

lemma handler_flag:
  assumes "WifiClient_event_handler e b i s = Some s'"
  shows "connected s' =
    (if (b, i) = sta_disconnected then False else if (b, i) = got_ip then True else connected s)"
  using assms
  by (auto simp: WifiClient_event_handler_def isConnected_def event_ids log_connect_error_def
      esp_call_def setConnected_def emit_def ESP_LOGE_def Let_def fireEvent_keeps(1)
      split: if_splits option.splits)

lemma log_connect_error_live:
  "receivers_live (log_connect_error e (esp_call e c s)) = receivers_live s"
  "receivers_live (setConnected f s) = receivers_live s"
  by (simp_all add: receivers_live_def log_connect_error_def esp_call_def emit_def ESP_LOGE_def
      setConnected_def Let_def)

lemma handler_live:
  assumes "receivers_live s"
  shows "\<exists>s'. WifiClient_event_handler e b i s = Some s' \<and> receivers_live s'"
proof -
  from fireEvent_result [OF assms, of DISCONNECTED] obtain d where
    d: "fireEvent DISCONNECTED s = Some d" "receivers_live d" by blast
  from fireEvent_result [OF assms, of CONNECTED] obtain c where
    c: "fireEvent CONNECTED s = Some c" "receivers_live c" by blast
  show ?thesis
    using assms d c
    by (simp add: WifiClient_event_handler_def log_connect_error_live)
qed

lemma run_events_total:
  "receivers_live s \<Longrightarrow> \<exists>s'. run_events e evs s = Some s'"
proof (induction evs arbitrary: s)
  case Nil
  then show ?case by simp
next
  case (Cons ev evs)
  from handler_live [OF Cons.prems, of e "fst ev" "snd ev"] obtain s1 where
    "WifiClient_event_handler e (fst ev) (snd ev) s = Some s1" "receivers_live s1" by blast
  with Cons.IH [of s1] show ?case by simp
qed

lemma run_events_flag:
  "run_events e evs s = Some s' \<Longrightarrow> connected s' = flag_after (connected s) evs"
proof (induction evs arbitrary: s)
  case Nil
  then show ?case by simp
next
  case (Cons ev evs)
  from Cons.prems obtain s1 where
    h: "WifiClient_event_handler e (fst ev) (snd ev) s = Some s1" and r: "run_events e evs s1 = Some s'"
    by (auto split: option.splits)
  from handler_flag [OF h] Cons.IH [OF r] show ?case
    by (cases ev) simp
qed

lemma split_at_first:
  "(\<exists>before after. ev # evs = before @ x # after \<and> P after) \<longleftrightarrow>
   (ev = x \<and> P evs) \<or> (\<exists>before after. evs = before @ x # after \<and> P after)"
  by (auto simp: Cons_eq_append_conv) 

lemma flag_after_char:
  "flag_after c evs \<longleftrightarrow>
     (\<exists>before after. evs = before @ got_ip # after \<and>
        got_ip \<notin> set after \<and> sta_disconnected \<notin> set after) \<or>
     (c \<and> got_ip \<notin> set evs \<and> sta_disconnected \<notin> set evs)"
proof (induction evs arbitrary: c)
  case Nil
  then show ?case by simp
next
  case (Cons ev evs)
  have ne: "got_ip \<noteq> sta_disconnected" by simp
  show ?case
    unfolding flag_after.simps Cons.IH split_at_first [where P = "\<lambda>after. got_ip \<notin> set after \<and> sta_disconnected \<notin> set after"]
    using ne by auto
qed

text \<open>
  Claim C1. Start with the connected flag false and let the handler process any list of
  driver events. With every registered address holding a live queue the run ends
  normally, and whenever it does, \<open>isConnected()\<close> is true exactly if the list holds an
  "address acquired" event whose tail holds no further "address acquired" event (it is
  the most recent one) and no "station disconnected" event.
\<close>

theorem flag_follows_events:
  assumes "\<not> connected s"
  shows "(receivers_live s \<longrightarrow> run_events e evs s \<noteq> None) \<and>
         (\<forall>s'. run_events e evs s = Some s' \<longrightarrow>
            (isConnected s' \<longleftrightarrow>
               (\<exists>before after. evs = before @ (IP_EVENT, IP_EVENT_STA_GOT_IP) # after \<and>
                  (IP_EVENT, IP_EVENT_STA_GOT_IP) \<notin> set after \<and>
                  (WIFI_EVENT, WIFI_EVENT_STA_DISCONNECTED) \<notin> set after)))"
  using assms run_events_total [of s e evs] run_events_flag [of e evs s]
    flag_after_char [of False evs]
  by (auto simp: isConnected_def)

theorem flag_follows_events_witness:
  "\<not> connected two_queue_system \<and> receivers_live two_queue_system \<and>
   run_events env_ok lab_events two_queue_system \<noteq> None \<and>
   isConnected (the (run_events env_ok lab_events two_queue_system))"
proof -
  have off: "\<not> connected two_queue_system" and live: "receivers_live two_queue_system"
    by (simp_all add: receivers_live_def two_queue_system_def Singleton_def)
  note t = flag_follows_events [OF off, of env_ok lab_events]
  from t live obtain s' where s': "run_events env_ok lab_events two_queue_system = Some s'"
    by auto
  have "lab_events = [(WIFI_EVENT, WIFI_EVENT_STA_START), (WIFI_EVENT, WIFI_EVENT_STA_CONNECTED),
     (IP_EVENT, IP_EVENT_STA_GOT_IP), (WIFI_EVENT, WIFI_EVENT_STA_DISCONNECTED),
     (WIFI_EVENT, WIFI_EVENT_STA_CONNECTED)] @ (IP_EVENT, IP_EVENT_STA_GOT_IP) #
     [(WIFI_EVENT, WIFI_EVENT_WIFI_READY)] \<and>
     (IP_EVENT, IP_EVENT_STA_GOT_IP) \<notin> set [(WIFI_EVENT, WIFI_EVENT_WIFI_READY)] \<and>
     (WIFI_EVENT, WIFI_EVENT_STA_DISCONNECTED) \<notin> set [(WIFI_EVENT, WIFI_EVENT_WIFI_READY)]"
    by (simp add: lab_events_def event_ids)
  then have "\<exists>before after. lab_events = before @ (IP_EVENT, IP_EVENT_STA_GOT_IP) # after \<and>
                  (IP_EVENT, IP_EVENT_STA_GOT_IP) \<notin> set after \<and>
                  (WIFI_EVENT, WIFI_EVENT_STA_DISCONNECTED) \<notin> set after"
    by blast
  with t s' have "isConnected s'" by blast
  with off live s' show ?thesis by simp
qed

end
